theory Spec2Isabelle
  imports Main "HOL-Library.AList" "HOL-Library.Sublist" "HOL-Library.Char_ord"
    "HOL-Library.List_Lexorder" "HOL-Library.Word"
begin

section \<open>Python values\<close>

text \<open>
  The script \<^verbatim>\<open>generate_skills_and_agents.py\<close> works on the values that
  \<^verbatim>\<open>json.load\<close> produces and on dict and list literals of its own. A Python
  \<^verbatim>\<open>str\<close> is a \<open>string\<close>, one \<open>char\<close> for each code point (the static tables of the
  script are ASCII). A \<^verbatim>\<open>dict\<close> keeps its insertion order, which \<^verbatim>\<open>json.dump\<close> writes
  out, so it is an association list; its keys are strings. A float is only ever passed
  through; it is kept as the 64 bits of its IEEE 754 double.
\<close>

type_synonym pyfloat = "64 word"

datatype pyval =
    PNone
  | PBool bool
  | PInt int
  | PFloat pyfloat
  | PStr string
  | PList "pyval list"
  | PDict "(string \<times> pyval) list"

datatype error =
    KeyError string
  | TypeError
  | LoadError

text \<open>\<^verbatim>\<open>d.get(k, default)\<close> on a dict.\<close>

definition dict_get :: "(string \<times> 'v) list \<Rightarrow> string \<Rightarrow> 'v \<Rightarrow> 'v" where
  "dict_get d k dflt = (case map_of d k of Some v \<Rightarrow> v | None \<Rightarrow> dflt)"

text \<open>\<^verbatim>\<open>d[k]\<close> on a dict: \<^verbatim>\<open>KeyError\<close> when the key is missing.\<close>

definition dict_item :: "(string \<times> 'v) list \<Rightarrow> string \<Rightarrow> error + 'v" where
  "dict_item d k = (case map_of d k of Some v \<Rightarrow> Inr v | None \<Rightarrow> Inl (KeyError k))"

text \<open>
  \<^verbatim>\<open>d[k] = v\<close> on a dict: an existing key keeps its place and takes the new value, a new
  key goes to the end. This is \<open>AList.update\<close>.
\<close>

definition dict_set :: "string \<Rightarrow> 'v \<Rightarrow> (string \<times> 'v) list \<Rightarrow> (string \<times> 'v) list" where
  "dict_set k v d = AList.update k v d"

text \<open>
  \<^verbatim>\<open>v[k]\<close> with a string key on any value; only a dict can be indexed by a string.
\<close>

definition subscript :: "pyval \<Rightarrow> string \<Rightarrow> error + pyval" where
  "subscript v k = (case v of PDict d \<Rightarrow> dict_item d k | _ \<Rightarrow> Inl TypeError)"

text \<open>
  \<^verbatim>\<open>v[:200]\<close>: the first 200 items of a string or of a list, the whole of a shorter one.
  Every other value raises (a dict raises too: \<^verbatim>\<open>TypeError\<close> before Python 3.12,
  \<^verbatim>\<open>KeyError\<close> since; the model keeps the first).
\<close>

definition slice200 :: "pyval \<Rightarrow> error + pyval" where
  "slice200 v = (case v of
       PStr s \<Rightarrow> Inr (PStr (take 200 s))
     | PList xs \<Rightarrow> Inr (PList (take 200 xs))
     | _ \<Rightarrow> Inl TypeError)"

section \<open>The static tables\<close>

definition MCP_SERVERS :: "(string \<times> pyval) list" where
  "MCP_SERVERS =
    [(''filesystem'', PDict
        [(''command'', PStr ''npx''),
         (''args'', PList [PStr ''-y'', PStr ''@modelcontextprotocol/server-filesystem'',
                           PStr ''$HOME''])]),
     (''memory'', PDict
        [(''command'', PStr ''npx''),
         (''args'', PList [PStr ''-y'', PStr ''@modelcontextprotocol/server-memory''])]),
     (''context7'', PDict
        [(''command'', PStr ''npx''),
         (''args'', PList [PStr ''-y'', PStr ''@upstash/context7-mcp@latest''])]),
     (''sequential-thinking'', PDict
        [(''command'', PStr ''npx''),
         (''args'', PList [PStr ''-y'',
                           PStr ''@modelcontextprotocol/server-sequential-thinking''])]),
     (''puppeteer'', PDict
        [(''command'', PStr ''npx''),
         (''args'', PList [PStr ''-y'', PStr ''@modelcontextprotocol/server-puppeteer''])]),
     (''playwright'', PDict
        [(''command'', PStr ''npx''),
         (''args'', PList [PStr ''-y'', PStr ''@playwright/mcp''])]),
     (''dynamodb'', PDict
        [(''command'', PStr ''uvx''),
         (''args'', PList [PStr ''awslabs.dynamodb-mcp-server@latest'']),
         (''env'', PDict
            [(''AWS_REGION'', PStr ''ap-southeast-2''),
             (''AWS_PROFILE'', PStr ''default''),
             (''DDB-MCP-READONLY'', PStr ''false'')])]),
     (''aws-kb'', PDict
        [(''command'', PStr ''npx''),
         (''args'', PList [PStr ''-y'',
                           PStr ''@modelcontextprotocol/server-aws-kb-retrieval'']),
         (''env'', PDict [(''AWS_PROFILE'', PStr ''default'')])])]"

definition AGENT_MCPS :: "(string \<times> string list) list" where
  "AGENT_MCPS =
    [(''architecture-expert'', [''context7'', ''sequential-thinking'', ''aws-kb'']),
     (''cdk-expert-ts'', [''context7'', ''aws-kb'']),
     (''cdk-expert-python'', [''context7'', ''aws-kb'']),
     (''code-reviewer'', []),
     (''data-scientist'', [''context7'', ''dynamodb'', ''aws-kb'']),
     (''devops-engineer'', [''context7'', ''playwright'']),
     (''documentation-engineer'', [''context7'']),
     (''frontend-engineer-ts'', [''context7'']),
     (''frontend-engineer-dart'', [''context7'']),
     (''linux-specialist'', []),
     (''product-manager'', []),
     (''project-coordinator'', []),
     (''python-backend'', [''context7'', ''dynamodb'', ''aws-kb'']),
     (''python-test-engineer'', [''context7'', ''dynamodb'']),
     (''security-specialist'', [''context7'', ''sequential-thinking'', ''aws-kb'']),
     (''test-coordinator'', [''playwright'']),
     (''typescript-test-engineer'',
        [''context7'', ''sequential-thinking'', ''puppeteer'', ''playwright'']),
     (''ui-ux-designer'', [''context7'', ''puppeteer''])]"

definition BRIEF_PROMPTS :: "(string \<times> string) list" where
  "BRIEF_PROMPTS =
    [(''architecture-expert'', ''You are a pragmatic AWS solutions architect. Follow the detailed guidelines in your skill resource for security, scalability, cost-effectiveness, and caching strategies.''),
     (''cdk-expert-ts'', ''You are an AWS CDK expert specializing in TypeScript infrastructure as code. Follow the detailed guidelines in your skill resource.''),
     (''cdk-expert-python'', ''You are an AWS CDK expert specializing in Python infrastructure as code. Follow the detailed guidelines in your skill resource.''),
     (''code-reviewer'', ''You are a senior engineer reviewing for security, architecture, and unnecessary complexity. Follow the detailed guidelines in your skill resource.''),
     (''data-scientist'', ''You are a data scientist and data engineer with deep expertise in AWS data services, big data processing, and machine learning. Follow the detailed guidelines in your skill resource.''),
     (''devops-engineer'', ''You are a DevOps engineer specializing in secure CI/CD pipelines, load testing, and monitoring. Follow the detailed guidelines in your skill resource.''),
     (''documentation-engineer'', ''You are a documentation engineer focused on clear, concise, up-to-date documentation. Follow the detailed guidelines in your skill resource.''),
     (''frontend-engineer-ts'', ''You are a frontend engineer focused on simple, clean React with TypeScript. Follow the detailed guidelines in your skill resource.''),
     (''frontend-engineer-dart'', ''You are a frontend engineer focused on clean, idiomatic Flutter and Dart. Follow the detailed guidelines in your skill resource.''),
     (''linux-specialist'', ''You are a Linux SME with deep command line, git, and containerization expertise. Follow the detailed guidelines in your skill resource.''),
     (''product-manager'', ''You are a product manager focused on spec-driven development and feature preservation. Follow the detailed guidelines in your skill resource.''),
     (''project-coordinator'', ''You are a project coordinator responsible for maintaining project context and orchestrating agent collaboration. Follow the detailed guidelines in your skill resource.''),
     (''python-backend'', ''You are a Senior Python 3.12 backend engineer focused on clean, typed, functional code with database expertise. Follow the detailed guidelines in your skill resource.''),
     (''python-test-engineer'', ''You are a Python test engineer writing pragmatic pytest tests and enforcing code standards. Follow the detailed guidelines in your skill resource.''),
     (''security-specialist'', ''You are a senior application security engineer specializing in secure development, threat modeling, and cloud security hardening. Follow the detailed guidelines in your skill resource.''),
     (''test-coordinator'', ''You are a test coordinator enforcing test-driven development and quality standards. Follow the detailed guidelines in your skill resource.''),
     (''typescript-test-engineer'', ''You are a TypeScript test engineer for pragmatic testing and code quality. Follow the detailed guidelines in your skill resource.''),
     (''ui-ux-designer'', ''You are a UI/UX designer focused on intuitive, beautiful, accessible interfaces. Follow the detailed guidelines in your skill resource.'')]"

text \<open>
  \<^verbatim>\<open>k in v\<close> with a string \<open>k\<close>: a key of a dict, an item of a list, a substring of a
  string; the other values are not containers and raise.
\<close>

definition has_key :: "pyval \<Rightarrow> string \<Rightarrow> error + bool" where
  "has_key v k = (case v of
       PDict d \<Rightarrow> Inr (k \<in> fst ` set d)
     | PList xs \<Rightarrow> Inr (PStr k \<in> set xs)
     | PStr s \<Rightarrow> Inr (sublist k s)
     | _ \<Rightarrow> Inl TypeError)"

section \<open>The capability resolver\<close>

text \<open>
  \<^verbatim>\<open>d.copy()\<close> builds a new dict with the same items. On values, where a dict is its
  items, the copy is the dict itself; which objects the copy shares with the original is
  the subject of the store model further down.
\<close>

definition dict_copy :: "pyval \<Rightarrow> error + pyval" where
  "dict_copy v = (case v of PDict d \<Rightarrow> Inr (PDict d) | PList xs \<Rightarrow> Inr (PList xs)
     | _ \<Rightarrow> Inl TypeError)"

text \<open>
  One round of the loop over \<^verbatim>\<open>extra_mcps\<close> in \<^verbatim>\<open>build_mcp_servers\<close>:
  \<^verbatim>\<open>servers[mcp_name] = MCP_SERVERS[mcp_name].copy()\<close>, then the copy of
  \<^verbatim>\<open>env\<close> when the table entry has one.
\<close>

definition add_server :: "string \<Rightarrow> (string \<times> pyval) list \<Rightarrow> error + (string \<times> pyval) list" where
  "add_server mcp_name servers =
     (case dict_item MCP_SERVERS mcp_name of Inl e \<Rightarrow> Inl e | Inr entry \<Rightarrow>
     (case dict_copy entry of Inl e \<Rightarrow> Inl e | Inr c \<Rightarrow>
     (let servers1 = dict_set mcp_name c servers in
     (case has_key entry ''env'' of Inl e \<Rightarrow> Inl e
      | Inr False \<Rightarrow> Inr servers1
      | Inr True \<Rightarrow>
        (case subscript entry ''env'' of Inl e \<Rightarrow> Inl e | Inr env \<Rightarrow>
        (case dict_copy env of Inl e \<Rightarrow> Inl e | Inr env_copy \<Rightarrow>
        (case dict_item servers1 mcp_name of Inl e \<Rightarrow> Inl e | Inr target \<Rightarrow>
        (case target of
           PDict titems \<Rightarrow>
             Inr (dict_set mcp_name (PDict (dict_set ''env'' env_copy titems)) servers1)
         | _ \<Rightarrow> Inl TypeError))))))))"

fun add_extras :: "string list \<Rightarrow> (string \<times> pyval) list \<Rightarrow> error + (string \<times> pyval) list" where
  "add_extras [] servers = Inr servers"
| "add_extras (mcp_name # rest) servers =
     (case add_server mcp_name servers of Inl e \<Rightarrow> Inl e
      | Inr servers' \<Rightarrow> add_extras rest servers')"

definition build_mcp_servers :: "string \<Rightarrow> error + (string \<times> pyval) list" where
  "build_mcp_servers agent_name =
     (case dict_item MCP_SERVERS ''filesystem'' of Inl e \<Rightarrow> Inl e | Inr fs_entry \<Rightarrow>
     (case dict_copy fs_entry of Inl e \<Rightarrow> Inl e | Inr fs_copy \<Rightarrow>
     (case dict_item MCP_SERVERS ''memory'' of Inl e \<Rightarrow> Inl e | Inr mem_entry \<Rightarrow>
     (case dict_copy mem_entry of Inl e \<Rightarrow> Inl e | Inr mem_copy \<Rightarrow>
     (let servers = dict_set ''memory'' mem_copy (dict_set ''filesystem'' fs_copy []);
          extra_mcps = dict_get AGENT_MCPS agent_name []
      in add_extras extra_mcps servers)))))"

section \<open>The capability resolver on a store\<close>

text \<open>
  Python dicts and lists are objects: a variable or a container holds a reference, and
  \<^verbatim>\<open>d.copy()\<close> makes one new object whose items are the references the old one
  holds. Which lists and dicts two results of \<^verbatim>\<open>build_mcp_servers\<close> share is decided
  here, on a store of objects. An address is an index into the store; an object is
  allocated at the end of it.
\<close>

datatype hval =
    HNone
  | HBool bool
  | HInt int
  | HFloat pyfloat
  | HStr string
  | HRef nat

datatype hobj = HDict "(string \<times> hval) list" | HList "hval list"

type_synonym heap = "hobj list"

definition alloc :: "hobj \<Rightarrow> heap \<Rightarrow> nat \<times> heap" where
  "alloc ob h = (length h, h @ [ob])"

definition h_get :: "heap \<Rightarrow> nat \<Rightarrow> hobj option" where
  "h_get h a = (if a < length h then Some (h ! a) else None)"

text \<open>Evaluating a literal: the inner objects are built first, then the object itself.\<close>

fun store :: "pyval \<Rightarrow> heap \<Rightarrow> hval \<times> heap"
  and store_list :: "pyval list \<Rightarrow> heap \<Rightarrow> hval list \<times> heap"
  and store_items :: "(string \<times> pyval) list \<Rightarrow> heap \<Rightarrow> (string \<times> hval) list \<times> heap"
where
  "store PNone h = (HNone, h)"
| "store (PBool b) h = (HBool b, h)"
| "store (PInt i) h = (HInt i, h)"
| "store (PFloat x) h = (HFloat x, h)"
| "store (PStr s) h = (HStr s, h)"
| "store (PList xs) h =
     (case store_list xs h of (vs, h1) \<Rightarrow>
      (case alloc (HList vs) h1 of (a, h2) \<Rightarrow> (HRef a, h2)))"
| "store (PDict items) h =
     (case store_items items h of (kvs, h1) \<Rightarrow>
      (case alloc (HDict kvs) h1 of (a, h2) \<Rightarrow> (HRef a, h2)))"
| "store_list [] h = ([], h)"
| "store_list (x # xs) h =
     (case store x h of (v, h1) \<Rightarrow>
      (case store_list xs h1 of (vs, h2) \<Rightarrow> (v # vs, h2)))"
| "store_items [] h = ([], h)"
| "store_items ((k, x) # rest) h =
     (case store x h of (v, h1) \<Rightarrow>
      (case store_items rest h1 of (kvs, h2) \<Rightarrow> ((k, v) # kvs, h2)))"

text \<open>
  The value an object stands for, followed through at most \<open>n\<close> levels of references
  (a store can hold cycles).
\<close>

fun h_read :: "nat \<Rightarrow> heap \<Rightarrow> hval \<Rightarrow> pyval option" where
  "h_read n h HNone = Some PNone"
| "h_read n h (HBool b) = Some (PBool b)"
| "h_read n h (HInt i) = Some (PInt i)"
| "h_read n h (HFloat x) = Some (PFloat x)"
| "h_read n h (HStr s) = Some (PStr s)"
| "h_read 0 h (HRef a) = None"
| "h_read (Suc n) h (HRef a) =
     (case h_get h a of
        None \<Rightarrow> None
      | Some (HList vs) \<Rightarrow>
          (let rs = map (h_read n h) vs in
           if None \<in> set rs then None else Some (PList (map the rs)))
      | Some (HDict kvs) \<Rightarrow>
          (let rs = map (\<lambda>(k, v). (k, h_read n h v)) kvs in
           if None \<in> snd ` set rs then None
           else Some (PDict (map (\<lambda>(k, r). (k, the r)) rs))))"

text \<open>The module-level dict \<^verbatim>\<open>MCP_SERVERS\<close>: its reference and the store that holds it.\<close>

definition static_store :: "hval \<times> heap" where
  "static_store = store (PDict MCP_SERVERS) []"

text \<open>\<^verbatim>\<open>v[k]\<close>, \<^verbatim>\<open>k in v\<close>, \<^verbatim>\<open>v.copy()\<close> and \<^verbatim>\<open>v[k] = x\<close> on references.\<close>

definition h_subscript :: "heap \<Rightarrow> hval \<Rightarrow> string \<Rightarrow> error + hval" where
  "h_subscript h v k =
     (case v of
        HRef a \<Rightarrow>
          (case h_get h a of Some (HDict d) \<Rightarrow> dict_item d k | _ \<Rightarrow> Inl TypeError)
      | _ \<Rightarrow> Inl TypeError)"

definition h_has_key :: "heap \<Rightarrow> hval \<Rightarrow> string \<Rightarrow> error + bool" where
  "h_has_key h v k =
     (case v of
        HRef a \<Rightarrow>
          (case h_get h a of
             Some (HDict d) \<Rightarrow> Inr (k \<in> fst ` set d)
           | Some (HList vs) \<Rightarrow> Inr (HStr k \<in> set vs)
           | None \<Rightarrow> Inl TypeError)
      | HStr s \<Rightarrow> Inr (sublist k s)
      | _ \<Rightarrow> Inl TypeError)"

definition h_copy :: "heap \<Rightarrow> hval \<Rightarrow> error + (hval \<times> heap)" where
  "h_copy h v =
     (case v of
        HRef a \<Rightarrow>
          (case h_get h a of
             Some ob \<Rightarrow> (case alloc ob h of (c, h') \<Rightarrow> Inr (HRef c, h'))
           | None \<Rightarrow> Inl TypeError)
      | _ \<Rightarrow> Inl TypeError)"

definition h_setitem :: "heap \<Rightarrow> hval \<Rightarrow> string \<Rightarrow> hval \<Rightarrow> error + heap" where
  "h_setitem h v k x =
     (case v of
        HRef a \<Rightarrow>
          (case h_get h a of
             Some (HDict d) \<Rightarrow> Inr (h[a := HDict (dict_set k x d)])
           | _ \<Rightarrow> Inl TypeError)
      | _ \<Rightarrow> Inl TypeError)"

text \<open>\<^verbatim>\<open>v.append(x)\<close>: the mutation of a list object in place.\<close>

definition h_append :: "heap \<Rightarrow> hval \<Rightarrow> hval \<Rightarrow> error + heap" where
  "h_append h v x =
     (case v of
        HRef a \<Rightarrow>
          (case h_get h a of
             Some (HList vs) \<Rightarrow> Inr (h[a := HList (vs @ [x])])
           | _ \<Rightarrow> Inl TypeError)
      | _ \<Rightarrow> Inl TypeError)"

text \<open>\<^verbatim>\<open>servers[mcp_name] = MCP_SERVERS[mcp_name].copy()\<close>.\<close>

definition h_put_copy :: "hval \<Rightarrow> hval \<Rightarrow> string \<Rightarrow> heap \<Rightarrow> error + heap" where
  "h_put_copy table servers mcp_name h =
     (case h_subscript h table mcp_name of Inl e \<Rightarrow> Inl e | Inr entry \<Rightarrow>
     (case h_copy h entry of Inl e \<Rightarrow> Inl e | Inr (c, h1) \<Rightarrow>
        h_setitem h1 servers mcp_name c))"

text \<open>One round of the loop over \<^verbatim>\<open>extra_mcps\<close>.\<close>

definition h_add_server :: "hval \<Rightarrow> hval \<Rightarrow> string \<Rightarrow> heap \<Rightarrow> error + heap" where
  "h_add_server table servers mcp_name h =
     (case h_put_copy table servers mcp_name h of Inl e \<Rightarrow> Inl e | Inr h1 \<Rightarrow>
     (case h_subscript h1 table mcp_name of Inl e \<Rightarrow> Inl e | Inr entry \<Rightarrow>
     (case h_has_key h1 entry ''env'' of Inl e \<Rightarrow> Inl e
      | Inr False \<Rightarrow> Inr h1
      | Inr True \<Rightarrow>
        (case h_subscript h1 entry ''env'' of Inl e \<Rightarrow> Inl e | Inr env \<Rightarrow>
        (case h_copy h1 env of Inl e \<Rightarrow> Inl e | Inr (env_copy, h2) \<Rightarrow>
        (case h_subscript h2 servers mcp_name of Inl e \<Rightarrow> Inl e | Inr target \<Rightarrow>
           h_setitem h2 target ''env'' env_copy))))))"

fun h_add_extras :: "hval \<Rightarrow> hval \<Rightarrow> string list \<Rightarrow> heap \<Rightarrow> error + heap" where
  "h_add_extras table servers [] h = Inr h"
| "h_add_extras table servers (mcp_name # rest) h =
     (case h_add_server table servers mcp_name h of Inl e \<Rightarrow> Inl e
      | Inr h' \<Rightarrow> h_add_extras table servers rest h')"

text \<open>
  \<^verbatim>\<open>build_mcp_servers\<close> with \<^verbatim>\<open>MCP_SERVERS\<close> at the reference \<open>table\<close>: the reference of
  the new dict \<^verbatim>\<open>servers\<close> and the store after the call.
\<close>

definition h_build_mcp_servers :: "hval \<Rightarrow> string \<Rightarrow> heap \<Rightarrow> error + (hval \<times> heap)" where
  "h_build_mcp_servers table agent_name h =
     (case alloc (HDict []) h of (a, h0) \<Rightarrow>
     (let servers = HRef a in
     (case h_put_copy table servers ''filesystem'' h0 of Inl e \<Rightarrow> Inl e | Inr h1 \<Rightarrow>
     (case h_put_copy table servers ''memory'' h1 of Inl e \<Rightarrow> Inl e | Inr h2 \<Rightarrow>
     (case h_add_extras table servers (dict_get AGENT_MCPS agent_name []) h2 of
        Inl e \<Rightarrow> Inl e
      | Inr h3 \<Rightarrow> Inr (servers, h3))))))"

text \<open>\<^verbatim>\<open>v[k1][k2]...\<close> on references.\<close>

fun h_path :: "heap \<Rightarrow> hval \<Rightarrow> string list \<Rightarrow> error + hval" where
  "h_path h v [] = Inr v"
| "h_path h v (k # ks) =
     (case h_subscript h v k of Inl e \<Rightarrow> Inl e | Inr v' \<Rightarrow> h_path h v' ks)"

text \<open>
  Two calls of \<^verbatim>\<open>build_mcp_servers\<close>, one after the other, in a fresh module: the reference
  of \<^verbatim>\<open>MCP_SERVERS\<close>, those of the two results, and the store after both.
\<close>

definition two_builds :: "string \<Rightarrow> string \<Rightarrow> error + (hval \<times> hval \<times> hval \<times> heap)" where
  "two_builds a b =
     (case static_store of (table, h0) \<Rightarrow>
     (case h_build_mcp_servers table a h0 of Inl e \<Rightarrow> Inl e | Inr (servers_a, h1) \<Rightarrow>
     (case h_build_mcp_servers table b h1 of Inl e \<Rightarrow> Inl e | Inr (servers_b, h2) \<Rightarrow>
        Inr (table, servers_a, servers_b, h2))))"

text \<open>The result of one call in a fresh module, read back as a value.\<close>

definition h_build_value :: "string \<Rightarrow> pyval option" where
  "h_build_value a =
     (case static_store of (table, h0) \<Rightarrow>
     (case h_build_mcp_servers table a h0 of Inl e \<Rightarrow> None
      | Inr (servers, h1) \<Rightarrow> h_read 3 h1 servers))"

section \<open>The documentation emitter\<close>

text \<open>
  An f-string writes a \<^verbatim>\<open>str\<close> as it is and any other value as \<^verbatim>\<open>str()\<close> prints it.
  How Python prints the values that are not strings is not part of the script; it is the
  parameter \<open>str_of\<close>.
\<close>

definition format_value :: "(pyval \<Rightarrow> string) \<Rightarrow> pyval \<Rightarrow> string" where
  "format_value str_of v = (case v of PStr s \<Rightarrow> s | _ \<Rightarrow> str_of v)"

definition newline :: string where
  "newline = [CHR 0x0A]"

definition generate_skill_md :: "(pyval \<Rightarrow> string) \<Rightarrow> pyval \<Rightarrow> pyval \<Rightarrow> pyval \<Rightarrow> string" where
  "generate_skill_md str_of name description prompt_content =
     ''---'' @ newline @
     ''name: '' @ format_value str_of name @ newline @
     ''description: '' @ format_value str_of description @ newline @
     ''---'' @ newline @
     newline @
     format_value str_of prompt_content @ newline"

section \<open>Strings and paths\<close>

text \<open>
  \<^verbatim>\<open>s.replace(old, new)\<close>: the occurrences of \<open>old\<close> are found from the left and do not
  overlap; the text after a replaced occurrence is scanned on, the replacement is not
  scanned again. An empty \<open>old\<close> matches before every character and at the end.
\<close>

function str_replace :: "string \<Rightarrow> string \<Rightarrow> string \<Rightarrow> string" where
  "str_replace old new [] = (if old = [] then new else [])"
| "str_replace old new (c # cs) =
     (if old = [] then new @ c # str_replace old new cs
      else if prefix old (c # cs) then new @ str_replace old new (drop (length old) (c # cs))
      else c # str_replace old new cs)"
  by pat_completeness auto
termination
  by (relation "measure (\<lambda>(old, new, s). length s)") auto

text \<open>
  \<^verbatim>\<open>os.path.join(a, b)\<close> on POSIX: an absolute \<open>b\<close> replaces \<open>a\<close>, otherwise the two are
  joined by one slash, which an empty \<open>a\<close> or an \<open>a\<close> that ends in a slash does not need.
\<close>

definition path_join :: "string \<Rightarrow> string \<Rightarrow> string" where
  "path_join a b =
     (if prefix ''/'' b then b
      else if a = [] \<or> suffix ''/'' a then a @ b
      else a @ ''/'' @ b)"

text \<open>
  \<^verbatim>\<open>SKILLS_DIR\<close> is the directory \<^verbatim>\<open>skills\<close> beside the script; paths are written from
  the directory of the script.
\<close>

definition SKILLS_DIR :: string where
  "SKILLS_DIR = ''skills''"

section \<open>The file system\<close>

text \<open>
  The directory \<^verbatim>\<open>agents\<close> holds named entries. What \<^verbatim>\<open>json.load\<close> makes of an entry
  is all the script sees of it: a value, or an exception (not JSON, not a file). A file
  that \<^verbatim>\<open>json.dump\<close> wrote loads as the value written, and equal values are written as
  equal bytes, so a written record is the value itself. Under \<^verbatim>\<open>skills\<close> the script
  creates directories and writes text files, and reads nothing; both are kept by path.
  The progress lines printed to the terminal are not part of the state.
\<close>

datatype content = Not_Json | Json pyval

record fs =
  agents :: "(string \<times> content) list"
  skill_dirs :: "string set"
  skill_files :: "string \<rightharpoonup> string"

text \<open>\<^verbatim>\<open>sorted(os.listdir(AGENTS_DIR))\<close>: each name once, in the order of \<^verbatim>\<open>str\<close>.\<close>

definition listdir :: "(string \<times> content) list \<Rightarrow> string list" where
  "listdir dir = sorted_list_of_set (fst ` set dir)"

text \<open>\<^verbatim>\<open>open(filepath, "r")\<close> and \<^verbatim>\<open>json.load(f)\<close>.\<close>

definition load_json :: "(string \<times> content) list \<Rightarrow> string \<Rightarrow> error + pyval" where
  "load_json dir filename =
     (case map_of dir filename of Some (Json v) \<Rightarrow> Inr v | _ \<Rightarrow> Inl LoadError)"

text \<open>
  \<^verbatim>\<open>os.makedirs(skill_dir, exist_ok=True)\<close>: the directory and the one above it, which is
  \<^verbatim>\<open>SKILLS_DIR\<close>, exist afterwards.
\<close>

definition makedirs :: "string \<Rightarrow> string set \<Rightarrow> string set" where
  "makedirs skill_dir dirs = insert skill_dir (insert SKILLS_DIR dirs)"

section \<open>The pipeline\<close>

text \<open>
  The arguments of the call of \<^verbatim>\<open>generate_skill_md\<close> in \<^verbatim>\<open>process_agents\<close>, read from
  the record in the order written, and the call.
\<close>

definition skill_content_of :: "(pyval \<Rightarrow> string) \<Rightarrow> pyval \<Rightarrow> error + string" where
  "skill_content_of str_of agent =
     (case subscript agent ''name'' of Inl e \<Rightarrow> Inl e | Inr name \<Rightarrow>
     (case subscript agent ''description'' of Inl e \<Rightarrow> Inl e | Inr description \<Rightarrow>
     (case subscript agent ''prompt'' of Inl e \<Rightarrow> Inl e | Inr prompt \<Rightarrow>
        Inr (generate_skill_md str_of name description prompt))))"

text \<open>
  \<^verbatim>\<open>BRIEF_PROMPTS.get(agent_name, prompt[:200])\<close>: Python evaluates the default before
  the lookup, so a prompt that cannot be sliced raises also for a listed agent.
\<close>

definition brief_prompt :: "string \<Rightarrow> pyval \<Rightarrow> error + pyval" where
  "brief_prompt agent_name prompt =
     (case slice200 prompt of Inl e \<Rightarrow> Inl e | Inr dflt \<Rightarrow>
        Inr (case map_of BRIEF_PROMPTS agent_name of Some b \<Rightarrow> PStr b | None \<Rightarrow> dflt))"

definition skill_resource :: "string \<Rightarrow> string" where
  "skill_resource agent_name = ''skill://.kiro/skills/'' @ agent_name @ ''/SKILL.md''"

text \<open>
  The second step of the loop body, up to the dict \<^verbatim>\<open>updated_agent\<close>; the items are
  evaluated in the order of the dict display.
\<close>

definition updated_agent :: "string \<Rightarrow> pyval \<Rightarrow> error + pyval" where
  "updated_agent agent_name agent =
     (case subscript agent ''prompt'' of Inl e \<Rightarrow> Inl e | Inr prompt \<Rightarrow>
     (case brief_prompt agent_name prompt of Inl e \<Rightarrow> Inl e | Inr brief \<Rightarrow>
     (case build_mcp_servers agent_name of Inl e \<Rightarrow> Inl e | Inr mcp_servers \<Rightarrow>
     (case subscript agent ''name'' of Inl e \<Rightarrow> Inl e | Inr name \<Rightarrow>
     (case subscript agent ''description'' of Inl e \<Rightarrow> Inl e | Inr description \<Rightarrow>
     (case subscript agent ''tools'' of Inl e \<Rightarrow> Inl e | Inr tools \<Rightarrow>
     (case subscript agent ''allowedTools'' of Inl e \<Rightarrow> Inl e | Inr allowed \<Rightarrow>
        Inr (PDict
          [(''name'', name),
           (''description'', description),
           (''tools'', tools),
           (''allowedTools'', allowed),
           (''prompt'', brief),
           (''includeMcpJson'', PBool False),
           (''mcpServers'', PDict mcp_servers),
           (''resources'', PList
              [PStr ''file://.kiro/steering/**/*.md'',
               PStr (skill_resource agent_name)])]))))))))"

definition agent_name_of :: "string \<Rightarrow> string" where
  "agent_name_of filename = str_replace ''.json'' [] filename"

text \<open>
  One round of the loop of \<^verbatim>\<open>process_agents\<close>. An exception ends the run; what was
  written before it stays written, so the state comes back with the error.
\<close>

definition process_file :: "(pyval \<Rightarrow> string) \<Rightarrow> string \<Rightarrow> fs \<Rightarrow> error option \<times> fs" where
  "process_file str_of filename s =
     (if \<not> suffix ''.json'' filename then (None, s)
      else
       (let agent_name = agent_name_of filename in
       (case load_json (agents s) filename of Inl e \<Rightarrow> (Some e, s) | Inr agent \<Rightarrow>
       (let skill_dir = path_join SKILLS_DIR agent_name;
            s1 = s\<lparr>skill_dirs := makedirs skill_dir (skill_dirs s)\<rparr> in
       (case skill_content_of str_of agent of Inl e \<Rightarrow> (Some e, s1) | Inr skill_content \<Rightarrow>
       (let skill_path = path_join skill_dir ''SKILL.md'';
            s2 = s1\<lparr>skill_files := (skill_files s1)(skill_path \<mapsto> skill_content)\<rparr> in
       (case updated_agent agent_name agent of Inl e \<Rightarrow> (Some e, s2) | Inr upd \<Rightarrow>
          (None, s2\<lparr>agents := AList.update filename (Json upd) (agents s2)\<rparr>))))))))"

fun process_files :: "(pyval \<Rightarrow> string) \<Rightarrow> string list \<Rightarrow> fs \<Rightarrow> error option \<times> fs" where
  "process_files str_of [] s = (None, s)"
| "process_files str_of (filename # rest) s =
     (case process_file str_of filename s of
        (Some e, s') \<Rightarrow> (Some e, s')
      | (None, s') \<Rightarrow> process_files str_of rest s')"

definition process_agents :: "(pyval \<Rightarrow> string) \<Rightarrow> fs \<Rightarrow> error option \<times> fs" where
  "process_agents str_of s = process_files str_of (listdir (agents s)) s"

text \<open>The directory and the file that a round of the loop writes for a file name.\<close>

definition skill_dir_of :: "string \<Rightarrow> string" where
  "skill_dir_of filename = path_join SKILLS_DIR (agent_name_of filename)"

definition skill_path_of :: "string \<Rightarrow> string" where
  "skill_path_of filename = path_join (skill_dir_of filename) ''SKILL.md''"

text \<open>A record and a directory to run the pipeline on.\<close>

definition example_agent :: pyval where
  "example_agent = PDict
     [(''name'', PStr ''night-watchman''),
      (''description'', PStr ''Keeps watch''),
      (''prompt'', PStr ''Guard the gate.''),
      (''tools'', PList [PStr ''read'', PStr ''write'']),
      (''allowedTools'', PList [PStr ''read''])]"

definition example_fs :: fs where
  "example_fs =
     \<lparr>agents = [(''night-watchman.json'', Json example_agent), (''README.md'', Not_Json)],
      skill_dirs = {},
      skill_files = Map.empty\<rparr>"

text \<open>
  A state without what is under \<^verbatim>\<open>skills\<close>, and a state with the directories and files
  of another one added to its own; a run reads the first and adds to the second.
\<close>

definition blank :: "fs \<Rightarrow> fs" where
  "blank s = \<lparr>agents = agents s, skill_dirs = {}, skill_files = Map.empty\<rparr>"

definition graft :: "fs \<Rightarrow> fs \<Rightarrow> fs" where
  "graft base d =
     \<lparr>agents = agents d,
      skill_dirs = skill_dirs base \<union> skill_dirs d,
      skill_files = skill_files base ++ skill_files d\<rparr>"

section \<open>Properties of the capability resolver\<close>

lemma mcp_entry_shape:
  assumes "map_of MCP_SERVERS k = Some v"
  shows "\<exists>items. v = PDict items \<and>
           (\<forall>env. map_of items ''env'' = Some env \<longrightarrow> (\<exists>d. env = PDict d))"
  using assms by (auto simp: MCP_SERVERS_def split: if_splits)

lemma map_of_key_iff: "k \<in> fst ` set d \<longleftrightarrow> (\<exists>v. map_of d k = Some v)"
  by (metis domIff dom_map_of_conv_image_fst not_Some_eq)

text \<open>
  On values a round of the loop stores the table entry under its name: the copies are
  equal to what they copy.
\<close>

lemma add_server_value:
  assumes "map_of MCP_SERVERS k = Some v"
  shows "add_server k servers = Inr (AList.update k v servers)"
proof -
  from mcp_entry_shape [OF assms] obtain items where
    v: "v = PDict items" and
    env: "\<And>env. map_of items ''env'' = Some env \<Longrightarrow> \<exists>d. env = PDict d"
    by blast
  show ?thesis
  proof (cases "''env'' \<in> fst ` set items")
    case False
    then show ?thesis
      using assms v
      by (simp add: add_server_def dict_item_def dict_copy_def dict_set_def has_key_def)
  next
    case True
    then obtain e where e: "map_of items ''env'' = Some e"
      by (auto simp: map_of_key_iff)
    with env obtain d where d: "e = PDict d" by blast
    have "AList.update ''env'' (PDict d) items = items"
      using e d by (simp add: AList.update_triv)
    then show ?thesis
      using assms v True e d
      by (simp add: add_server_def dict_item_def dict_copy_def dict_set_def has_key_def
          subscript_def AList.update_conv')
  qed
qed

lemma add_extras_value:
  assumes "set ms \<subseteq> fst ` set MCP_SERVERS"
  shows "\<exists>servers'. add_extras ms servers = Inr servers' \<and>
           fst ` set servers' = fst ` set servers \<union> set ms \<and>
           (distinct (map fst servers) \<longrightarrow> distinct (map fst servers'))"
  using assms
proof (induction ms arbitrary: servers)
  case Nil
  then show ?case by simp
next
  case (Cons m ms)
  then obtain v where v: "map_of MCP_SERVERS m = Some v"
    by (auto simp: map_of_key_iff)
  let ?s1 = "AList.update m v servers"
  from Cons have "set ms \<subseteq> fst ` set MCP_SERVERS" by simp
  from Cons.IH [OF this, of ?s1] obtain servers' where
    r: "add_extras ms ?s1 = Inr servers'"
       "fst ` set servers' = fst ` set ?s1 \<union> set ms"
       "distinct (map fst ?s1) \<longrightarrow> distinct (map fst servers')"
    by blast
  show ?case
    using r by (auto simp: add_server_value [OF v] AList.dom_update AList.distinct_update)
qed

lemma agent_mcps_known:
  assumes "(a, ms) \<in> set AGENT_MCPS"
  shows "set ms \<subseteq> fst ` set MCP_SERVERS"
proof -
  have "\<forall>(a, ms) \<in> set AGENT_MCPS. set ms \<subseteq> fst ` set MCP_SERVERS"
    by (simp add: AGENT_MCPS_def MCP_SERVERS_def)
  with assms show ?thesis by blast
qed

lemma extras_in_table: "set (dict_get AGENT_MCPS a []) \<subseteq> fst ` set MCP_SERVERS"
proof (cases "map_of AGENT_MCPS a")
  case None
  then show ?thesis by (simp add: dict_get_def)
next
  case (Some ms)
  then have "(a, ms) \<in> set AGENT_MCPS" by (rule map_of_SomeD)
  from agent_mcps_known [OF this] Some show ?thesis by (simp add: dict_get_def)
qed

lemma build_mcp_servers_result:
  "\<exists>servers. build_mcp_servers agent_name = Inr servers \<and>
     fst ` set servers = {''filesystem'', ''memory''} \<union> set (dict_get AGENT_MCPS agent_name []) \<and>
     distinct (map fst servers)"
proof -
  obtain f where f: "map_of MCP_SERVERS ''filesystem'' = Some (PDict f)"
    by (simp add: MCP_SERVERS_def)
  obtain m where m: "map_of MCP_SERVERS ''memory'' = Some (PDict m)"
    by (simp add: MCP_SERVERS_def)
  let ?base = "AList.update ''memory'' (PDict m) (AList.update ''filesystem'' (PDict f) [])"
  from add_extras_value [OF extras_in_table, of agent_name ?base] obtain servers where
    r: "add_extras (dict_get AGENT_MCPS agent_name []) ?base = Inr servers"
       "fst ` set servers = fst ` set ?base \<union> set (dict_get AGENT_MCPS agent_name [])"
       "distinct (map fst ?base) \<longrightarrow> distinct (map fst servers)"
    by blast
  have "build_mcp_servers agent_name = Inr servers"
    using f m r(1) by (simp add: build_mcp_servers_def dict_item_def dict_copy_def dict_set_def)
  moreover have "fst ` set servers =
      {''filesystem'', ''memory''} \<union> set (dict_get AGENT_MCPS agent_name [])"
    using r(2) by auto
  moreover have "distinct (map fst servers)"
    using r(3) by simp
  ultimately show ?thesis by blast
qed

text \<open>
  C1. For every agent identifier \<^verbatim>\<open>build_mcp_servers\<close> returns a dict, without an error
  also for an identifier that \<^verbatim>\<open>AGENT_MCPS\<close> does not list. The keys of the dict are
  exactly \<^verbatim>\<open>filesystem\<close>, \<^verbatim>\<open>memory\<close> and the extras that \<^verbatim>\<open>AGENT_MCPS\<close> lists for the
  identifier (none for an identifier it does not list), and no key occurs twice.
\<close>

theorem build_mcp_servers_keys:
  "\<exists>servers. build_mcp_servers agent_name = Inr servers \<and>
     fst ` set servers =
       {''filesystem'', ''memory''} \<union>
       set (case map_of AGENT_MCPS agent_name of Some extras \<Rightarrow> extras | None \<Rightarrow> []) \<and>
     distinct (map fst servers)"
  using build_mcp_servers_result [of agent_name] by (simp add: dict_get_def)

text \<open>
  C6. Every name in a list of \<^verbatim>\<open>AGENT_MCPS\<close> is a key of \<^verbatim>\<open>MCP_SERVERS\<close>, so the
  lookup \<^verbatim>\<open>MCP_SERVERS[mcp_name]\<close> in the loop finds it, and \<^verbatim>\<open>build_mcp_servers\<close>
  returns a dict for every agent identifier: no lookup in it raises.
\<close>

theorem agent_mcps_lookups_total:
  assumes "(agent_name, extras) \<in> set AGENT_MCPS" and "mcp_name \<in> set extras"
  shows "mcp_name \<in> fst ` set MCP_SERVERS \<and>
         (\<exists>entry. dict_item MCP_SERVERS mcp_name = Inr entry) \<and>
         (\<forall>any_name. \<exists>servers. build_mcp_servers any_name = Inr servers)"
proof -
  from agent_mcps_known [OF assms(1)] assms(2)
  have k: "mcp_name \<in> fst ` set MCP_SERVERS" by blast
  then obtain v where "map_of MCP_SERVERS mcp_name = Some v"
    by (auto simp: map_of_key_iff)
  then have "dict_item MCP_SERVERS mcp_name = Inr v"
    by (simp add: dict_item_def)
  moreover have "\<forall>any_name. \<exists>servers. build_mcp_servers any_name = Inr servers"
    using build_mcp_servers_result by blast
  ultimately show ?thesis using k by blast
qed

theorem agent_mcps_lookups_total_witness:
  "(''test-coordinator'', [''playwright'']) \<in> set AGENT_MCPS \<and>
   ''playwright'' \<in> set [''playwright''] \<and>
   ''playwright'' \<in> fst ` set MCP_SERVERS \<and>
   (\<exists>entry. dict_item MCP_SERVERS ''playwright'' = Inr entry) \<and>
   (\<exists>servers. build_mcp_servers ''test-coordinator'' = Inr servers)"
proof -
  have a: "(''test-coordinator'', [''playwright'']) \<in> set AGENT_MCPS"
    by (simp add: AGENT_MCPS_def)
  have b: "''playwright'' \<in> set [''playwright'']" by simp
  from agent_mcps_lookups_total [OF a b] a b show ?thesis by blast
qed

text \<open>
  C8. For \<^verbatim>\<open>typescript-test-engineer\<close> the dict holds \<^verbatim>\<open>filesystem\<close> and \<^verbatim>\<open>memory\<close>,
  then \<^verbatim>\<open>context7\<close>, \<^verbatim>\<open>sequential-thinking\<close>, \<^verbatim>\<open>puppeteer\<close> and \<^verbatim>\<open>playwright\<close>, each with
  its entry of \<^verbatim>\<open>MCP_SERVERS\<close>, and nothing else.
\<close>

theorem build_mcp_servers_typescript_test_engineer:
  "\<exists>servers. build_mcp_servers ''typescript-test-engineer'' = Inr servers \<and>
     map fst servers =
       [''filesystem'', ''memory'', ''context7'', ''sequential-thinking'', ''puppeteer'',
        ''playwright''] \<and>
     set servers \<subseteq> set MCP_SERVERS"
  by (simp add: build_mcp_servers_def add_server_def dict_item_def dict_copy_def dict_set_def
      dict_get_def has_key_def subscript_def MCP_SERVERS_def AGENT_MCPS_def)

section \<open>Properties of the prompt summarizer\<close>

text \<open>
  C3. For a prompt that is a string, \<^verbatim>\<open>BRIEF_PROMPTS.get(agent_name, prompt[:200])\<close> is the
  entry of \<^verbatim>\<open>BRIEF_PROMPTS\<close> when the identifier is a key of it, and otherwise the first 200
  characters of the prompt, which is the whole prompt when it has no more than 200.
\<close>

theorem brief_prompt_summary:
  "brief_prompt agent_name (PStr prompt) =
     Inr (PStr (case map_of BRIEF_PROMPTS agent_name of
                  Some brief \<Rightarrow> brief
                | None \<Rightarrow> take 200 prompt)) \<and>
   (map_of BRIEF_PROMPTS agent_name = None \<and> length prompt \<le> 200 \<longrightarrow>
      brief_prompt agent_name (PStr prompt) = Inr (PStr prompt))"
  by (simp add: brief_prompt_def slice200_def split: option.splits)

theorem brief_prompt_summary_witness:
  "map_of BRIEF_PROMPTS ''night-watchman'' = None \<and> length ''Guard the gate.'' \<le> 200 \<and>
   brief_prompt ''night-watchman'' (PStr ''Guard the gate.'') = Inr (PStr ''Guard the gate.'') \<and>
   brief_prompt ''test-coordinator'' (PStr ''Guard the gate.'') =
     Inr (PStr ''You are a test coordinator enforcing test-driven development and quality standards. Follow the detailed guidelines in your skill resource.'') \<and>
   brief_prompt ''night-watchman'' (PStr (replicate 250 CHR ''a'')) =
     Inr (PStr (replicate 200 CHR ''a''))"
proof -
  have a: "map_of BRIEF_PROMPTS ''night-watchman'' = None"
    by (simp add: BRIEF_PROMPTS_def)
  have b: "map_of BRIEF_PROMPTS ''test-coordinator'' = Some ''You are a test coordinator enforcing test-driven development and quality standards. Follow the detailed guidelines in your skill resource.''"
    by (simp add: BRIEF_PROMPTS_def)
  have c: "length ''Guard the gate.'' \<le> 200" by simp
  have d: "take 200 (replicate 250 CHR ''a'') = replicate 200 CHR ''a''" by simp
  show ?thesis
    using brief_prompt_summary [of "''night-watchman''" "''Guard the gate.''"]
      brief_prompt_summary [of "''test-coordinator''" "''Guard the gate.''"]
      brief_prompt_summary [of "''night-watchman''" "replicate 250 CHR ''a''"]
      a b c d
    by simp
qed

section \<open>One round of the loop\<close>

lemma process_file_skip:
  "\<not> suffix ''.json'' filename \<Longrightarrow> process_file str_of filename s = (None, s)"
  by (simp add: process_file_def)

lemma process_file_load_error:
  assumes "suffix ''.json'' filename" and "load_json (agents s) filename = Inl e"
  shows "process_file str_of filename s = (Some e, s)"
  using assms by (simp add: process_file_def)

lemma process_file_loaded:
  assumes "suffix ''.json'' filename" and "load_json (agents s) filename = Inr agent"
  shows "process_file str_of filename s =
    (case skill_content_of str_of agent of
       Inl e \<Rightarrow> (Some e, s\<lparr>skill_dirs := makedirs (skill_dir_of filename) (skill_dirs s)\<rparr>)
     | Inr skill_content \<Rightarrow>
        (case updated_agent (agent_name_of filename) agent of
           Inl e \<Rightarrow> (Some e,
             s\<lparr>skill_dirs := makedirs (skill_dir_of filename) (skill_dirs s),
               skill_files := (skill_files s)(skill_path_of filename \<mapsto> skill_content)\<rparr>)
         | Inr upd \<Rightarrow> (None,
             s\<lparr>skill_dirs := makedirs (skill_dir_of filename) (skill_dirs s),
               skill_files := (skill_files s)(skill_path_of filename \<mapsto> skill_content),
               agents := AList.update filename (Json upd) (agents s)\<rparr>)))"
  using assms
  by (simp add: process_file_def skill_dir_of_def skill_path_of_def Let_def
      split: sum.splits)

lemma load_json_Inr: "load_json dir filename = Inr v \<longleftrightarrow> map_of dir filename = Some (Json v)"
  by (simp add: load_json_def split: option.splits content.splits)

lemma example_loads: "load_json (agents example_fs) ''night-watchman.json'' = Inr example_agent"
  by (simp add: load_json_def example_fs_def)

section \<open>Properties of the documentation emitter\<close>



section \<open>Properties of the record rewriter\<close>

text \<open>
  C4. When a round of the loop rewrites a record, the new record is a dict of exactly
  eight items, in this order: \<^verbatim>\<open>name\<close>, \<^verbatim>\<open>description\<close>, \<^verbatim>\<open>tools\<close> and \<^verbatim>\<open>allowedTools\<close> as
  the old record has them, \<^verbatim>\<open>prompt\<close> with the summarized prompt, \<^verbatim>\<open>includeMcpJson\<close> with
  \<^verbatim>\<open>False\<close>, \<^verbatim>\<open>mcpServers\<close> with the dict of \<^verbatim>\<open>build_mcp_servers\<close>, and \<^verbatim>\<open>resources\<close> with
  the list of the steering glob and the \<^verbatim>\<open>SKILL.md\<close> locator of the agent identifier.
\<close>

theorem rewritten_record_fields:
  assumes "suffix ''.json'' filename"
    and "fst (process_file str_of filename s) = None"
  shows "\<exists>agent name description tools allowed prompt brief servers.
      load_json (agents s) filename = Inr agent \<and>
      subscript agent ''name'' = Inr name \<and>
      subscript agent ''description'' = Inr description \<and>
      subscript agent ''tools'' = Inr tools \<and>
      subscript agent ''allowedTools'' = Inr allowed \<and>
      subscript agent ''prompt'' = Inr prompt \<and>
      brief_prompt (agent_name_of filename) prompt = Inr brief \<and>
      build_mcp_servers (agent_name_of filename) = Inr servers \<and>
      map_of (agents (snd (process_file str_of filename s))) filename =
        Some (Json (PDict
          [(''name'', name),
           (''description'', description),
           (''tools'', tools),
           (''allowedTools'', allowed),
           (''prompt'', brief),
           (''includeMcpJson'', PBool False),
           (''mcpServers'', PDict servers),
           (''resources'', PList
              [PStr ''file://.kiro/steering/**/*.md'',
               PStr (''skill://.kiro/skills/'' @ agent_name_of filename @ ''/SKILL.md'')])]))"
proof (cases "load_json (agents s) filename")
  case (Inl e)
  with assms show ?thesis by (simp add: process_file_load_error)
next
  case (Inr agent)
  from assms(2) obtain c upd where
    c: "skill_content_of str_of agent = Inr c" and
    u: "updated_agent (agent_name_of filename) agent = Inr upd"
    by (auto simp: process_file_loaded [OF assms(1) Inr] split: sum.splits)
  have w: "map_of (agents (snd (process_file str_of filename s))) filename = Some (Json upd)"
    using c u by (simp add: process_file_loaded [OF assms(1) Inr] AList.update_conv')
  from u show ?thesis
    unfolding w
    by (auto simp: updated_agent_def skill_resource_def Inr split: sum.splits)
qed

theorem rewritten_record_fields_witness:
  "suffix ''.json'' ''night-watchman.json'' \<and>
   fst (process_file (\<lambda>v. []) ''night-watchman.json'' example_fs) = None \<and>
   map_of (agents (snd (process_file (\<lambda>v. []) ''night-watchman.json'' example_fs)))
       ''night-watchman.json'' =
     Some (Json (PDict
        [(''name'', PStr ''night-watchman''),
         (''description'', PStr ''Keeps watch''),
         (''tools'', PList [PStr ''read'', PStr ''write'']),
         (''allowedTools'', PList [PStr ''read'']),
         (''prompt'', PStr ''Guard the gate.''),
         (''includeMcpJson'', PBool False),
         (''mcpServers'', PDict
            [(''filesystem'', PDict
                [(''command'', PStr ''npx''),
                 (''args'', PList [PStr ''-y'', PStr ''@modelcontextprotocol/server-filesystem'',
                                   PStr ''$HOME''])]),
             (''memory'', PDict
                [(''command'', PStr ''npx''),
                 (''args'', PList [PStr ''-y'', PStr ''@modelcontextprotocol/server-memory''])])]),
         (''resources'', PList
            [PStr ''file://.kiro/steering/**/*.md'',
             PStr ''skill://.kiro/skills/night-watchman/SKILL.md''])]))"
proof -
  have a: "suffix ''.json'' ''night-watchman.json''"
    by (simp add: suffix_def)
  have n: "agent_name_of ''night-watchman.json'' = ''night-watchman''"
    by (simp add: agent_name_of_def)
  have m: "build_mcp_servers ''night-watchman'' = Inr
            [(''filesystem'', PDict
                [(''command'', PStr ''npx''),
                 (''args'', PList [PStr ''-y'', PStr ''@modelcontextprotocol/server-filesystem'',
                                   PStr ''$HOME''])]),
             (''memory'', PDict
                [(''command'', PStr ''npx''),
                 (''args'', PList [PStr ''-y'', PStr ''@modelcontextprotocol/server-memory''])])]"
    by (simp add: build_mcp_servers_def dict_item_def dict_copy_def dict_set_def
      dict_get_def MCP_SERVERS_def AGENT_MCPS_def)
  have b: "brief_prompt ''night-watchman'' (PStr ''Guard the gate.'') = Inr (PStr ''Guard the gate.'')"
    by (simp add: brief_prompt_def slice200_def BRIEF_PROMPTS_def)
  have u: "updated_agent ''night-watchman'' example_agent = Inr (PDict
        [(''name'', PStr ''night-watchman''),
         (''description'', PStr ''Keeps watch''),
         (''tools'', PList [PStr ''read'', PStr ''write'']),
         (''allowedTools'', PList [PStr ''read'']),
         (''prompt'', PStr ''Guard the gate.''),
         (''includeMcpJson'', PBool False),
         (''mcpServers'', PDict
            [(''filesystem'', PDict
                [(''command'', PStr ''npx''),
                 (''args'', PList [PStr ''-y'', PStr ''@modelcontextprotocol/server-filesystem'',
                                   PStr ''$HOME''])]),
             (''memory'', PDict
                [(''command'', PStr ''npx''),
                 (''args'', PList [PStr ''-y'', PStr ''@modelcontextprotocol/server-memory''])])]),
         (''resources'', PList
            [PStr ''file://.kiro/steering/**/*.md'',
             PStr ''skill://.kiro/skills/night-watchman/SKILL.md''])])"
    by (simp add: updated_agent_def m b subscript_def dict_item_def example_agent_def
        skill_resource_def)
  have c: "\<exists>c. skill_content_of (\<lambda>v. []) example_agent = Inr c"
    by (simp add: skill_content_of_def subscript_def dict_item_def example_agent_def)
  have f: "fst (process_file (\<lambda>v. []) ''night-watchman.json'' example_fs) = None"
    using c u by (auto simp: process_file_loaded [OF a example_loads] n)
  have w: "map_of (agents (snd (process_file (\<lambda>v. []) ''night-watchman.json'' example_fs)))
       ''night-watchman.json'' = Some (Json (the_updated))" if "updated_agent ''night-watchman'' example_agent = Inr the_updated" for the_updated
    using c that by (auto simp: process_file_loaded [OF a example_loads] n AList.update_conv')
  from rewritten_record_fields [OF a f] w [OF u] a f show ?thesis by simp
qed

section \<open>Properties of the agent identifier\<close>

lemma length_str_replace_le: "length (str_replace old [] s) \<le> length s"
proof (induction s rule: length_induct)
  case (1 s)
  show ?case
  proof (cases s)
    case Nil
    then show ?thesis by simp
  next
    case (Cons c cs)
    have cs: "length (str_replace old [] cs) \<le> length cs"
      using 1 Cons by simp
    show ?thesis
    proof (cases "old \<noteq> [] \<and> prefix old (c # cs)")
      case True
      then have "length (drop (length old) (c # cs)) < length s"
        using Cons by (cases old) simp_all
      with 1 have "length (str_replace old [] (drop (length old) (c # cs)))
          \<le> length (drop (length old) (c # cs))"
        by blast
      with True Cons show ?thesis by simp
    next
      case False
      with cs Cons show ?thesis by auto
    qed
  qed
qed

text \<open>An occurrence of \<open>old\<close> costs the result the length of \<open>old\<close>.\<close>

lemma length_str_replace_sublist:
  assumes "old \<noteq> []" and "sublist old s"
  shows "length (str_replace old [] s) + length old \<le> length s"
  using assms(2)
proof (induction s)
  case Nil
  with assms(1) show ?case by simp
next
  case (Cons c cs)
  show ?case
  proof (cases "prefix old (c # cs)")
    case True
    then have "length old \<le> length (c # cs)" by (rule prefix_length_le)
    moreover have "length (str_replace old [] (drop (length old) (c # cs)))
        \<le> length (c # cs) - length old"
      using length_str_replace_le [of old "drop (length old) (c # cs)"] by simp
    ultimately show ?thesis using True assms(1) by simp
  next
    case False
    with Cons.prems have "sublist old cs" by (simp add: sublist_Cons_right)
    from Cons.IH [OF this] assms(1) False show ?thesis by simp
  qed
qed

text \<open>Two occurrences, one in each part of the string, cost it twice.\<close>

lemma length_str_replace_two:
  assumes "old \<noteq> []" and "sublist old xs" and "sublist old ys"
  shows "length (str_replace old [] (xs @ ys)) + 2 * length old \<le> length xs + length ys"
  using assms(2)
proof (induction xs)
  case Nil
  with assms(1) show ?case by simp
next
  case (Cons c cs)
  from Cons.prems have l: "length old \<le> length (c # cs)"
    by (rule sublist_length_le)
  show ?case
  proof (cases "prefix old (c # cs)")
    case True
    then have p: "prefix old (c # cs @ ys)"
      using prefix_prefix [of old "c # cs" ys] by simp
    from assms(3) obtain ps ss where "ys = ps @ old @ ss"
      by (auto simp: sublist_def)
    then have "drop (length old) (c # cs) @ ys = (drop (length old) (c # cs) @ ps) @ old @ ss"
      by simp
    then have "sublist old (drop (length old) (c # cs) @ ys)"
      unfolding sublist_def by blast
    from length_str_replace_sublist [OF assms(1) this]
    have "length (str_replace old [] (drop (length old) (c # cs) @ ys)) + length old
        \<le> length (c # cs) - length old + length ys"
      by simp
    moreover have "drop (length old) (c # cs @ ys) = drop (length old) (c # cs) @ ys"
      using l drop_append [of "length old" "c # cs" ys] by simp
    ultimately show ?thesis using p l assms(1) by simp
  next
    case False
    with Cons.prems have s: "sublist old cs" by (simp add: sublist_Cons_right)
    have "\<not> prefix old (c # cs @ ys)"
    proof
      assume "prefix old (c # cs @ ys)"
      then have "old = take (length old) ((c # cs) @ ys)"
        by (auto simp: prefix_def)
      also have "\<dots> = take (length old) (c # cs)"
        using l take_append [of "length old" "c # cs" ys] by simp
      finally have "prefix old (c # cs)"
        by (metis take_is_prefix)
      with False show False ..
    qed
    with Cons.IH [OF s] assms(1) show ?thesis by simp
  qed
qed

lemma set_str_replace: "set (str_replace old [] s) \<subseteq> set s"
proof (induction s rule: length_induct)
  case (1 s)
  show ?case
  proof (cases s)
    case Nil
    then show ?thesis by simp
  next
    case (Cons c cs)
    have cs: "set (str_replace old [] cs) \<subseteq> set cs"
      using 1 Cons by simp
    show ?thesis
    proof (cases "old \<noteq> [] \<and> prefix old (c # cs)")
      case True
      then have "length (drop (length old) (c # cs)) < length s"
        using Cons by (cases old) simp_all
      with 1 have "set (str_replace old [] (drop (length old) (c # cs)))
          \<subseteq> set (drop (length old) (c # cs))"
        by blast
      also have "\<dots> \<subseteq> set (c # cs)" by (rule set_drop_subset)
      finally show ?thesis using True Cons by simp
    next
      case False
      with cs Cons show ?thesis by auto
    qed
  qed
qed

lemma path_join_relative:
  "CHR ''/'' \<notin> set b \<Longrightarrow> path_join SKILLS_DIR b = ''skills/'' @ b"
  by (cases b) (auto simp: path_join_def SKILLS_DIR_def suffix_def)

lemma skill_path_relative:
  assumes "CHR ''/'' \<notin> set b"
  shows "path_join (path_join SKILLS_DIR b) ''SKILL.md'' =
    (if b = [] then ''skills/SKILL.md'' else ''skills/'' @ b @ ''/SKILL.md'')"
proof (cases "b = []")
  case True
  then show ?thesis by (simp add: path_join_def SKILLS_DIR_def suffix_def)
next
  case False
  have n: "\<not> suffix ''/'' (''skills/'' @ b)"
  proof
    assume "suffix ''/'' (''skills/'' @ b)"
    then obtain zs where "''skills/'' @ b = zs @ ''/''" by (auto simp: suffix_def)
    then have "last (''skills/'' @ b) = CHR ''/''" by simp
    with False have "last b = CHR ''/''" by simp
    with False assms show False using last_in_set by fastforce
  qed
  have "path_join (''skills/'' @ b) ''SKILL.md'' = (''skills/'' @ b) @ ''/'' @ ''SKILL.md''"
    unfolding path_join_def using n by simp
  then show ?thesis using False by (simp add: path_join_relative [OF assms])
qed


text \<open>
  C10. The agent identifier is \<^verbatim>\<open>filename.replace(".json", "")\<close>, which removes every
  occurrence of \<^verbatim>\<open>.json\<close> and not only the suffix. So for a file name whose stem (the
  name without the last \<^verbatim>\<open>.json\<close>) holds \<^verbatim>\<open>.json\<close> again, the identifier is not the
  stem: it is shorter by five characters or more, and the path of \<^verbatim>\<open>SKILL.md\<close> and the
  resource locator are not those of the stem. (A file name holds no slash.) The keys
  looked up in \<^verbatim>\<open>AGENT_MCPS\<close> and \<^verbatim>\<open>BRIEF_PROMPTS\<close> are the identifier.
\<close>

theorem agent_name_not_stem:
  assumes "sublist ''.json'' stem" and "CHR ''/'' \<notin> set stem"
  shows "agent_name_of (stem @ ''.json'') = str_replace ''.json'' [] (stem @ ''.json'') \<and>
         length (agent_name_of (stem @ ''.json'')) + 5 \<le> length stem \<and>
         agent_name_of (stem @ ''.json'') \<noteq> stem \<and>
         path_join (path_join SKILLS_DIR (agent_name_of (stem @ ''.json''))) ''SKILL.md'' \<noteq>
           path_join (path_join SKILLS_DIR stem) ''SKILL.md'' \<and>
         skill_resource (agent_name_of (stem @ ''.json'')) \<noteq> skill_resource stem"
proof -
  let ?a = "agent_name_of (stem @ ''.json'')"
  have "sublist ''.json'' ''.json''" by simp
  from length_str_replace_two [OF _ assms(1) this]
  have l: "length ?a + 5 \<le> length stem"
    by (simp add: agent_name_of_def)
  then have ne: "?a \<noteq> stem" by auto
  have "set ?a \<subseteq> set (stem @ ''.json'')"
    unfolding agent_name_of_def by (rule set_str_replace)
  with assms(2) have na: "CHR ''/'' \<notin> set ?a" by auto
  from l have st: "stem \<noteq> []" by auto
  have "path_join (path_join SKILLS_DIR ?a) ''SKILL.md'' \<noteq>
      path_join (path_join SKILLS_DIR stem) ''SKILL.md''"
  proof (cases "?a = []")
    case True
    have pa: "path_join (path_join SKILLS_DIR ?a) ''SKILL.md'' = ''skills/SKILL.md''"
      using skill_path_relative [OF na] True by simp
    have ps: "path_join (path_join SKILLS_DIR stem) ''SKILL.md'' = ''skills/'' @ stem @ ''/SKILL.md''"
      using skill_path_relative [OF assms(2)] st by simp
    have "length ''skills/SKILL.md'' \<noteq> length (''skills/'' @ stem @ ''/SKILL.md'')"
      by simp
    then have "''skills/SKILL.md'' \<noteq> ''skills/'' @ stem @ ''/SKILL.md''"
      by metis
    then show ?thesis unfolding pa ps .
  next
    case False
    have pa: "path_join (path_join SKILLS_DIR ?a) ''SKILL.md'' = ''skills/'' @ ?a @ ''/SKILL.md''"
      using skill_path_relative [OF na] False by simp
    have ps: "path_join (path_join SKILLS_DIR stem) ''SKILL.md'' = ''skills/'' @ stem @ ''/SKILL.md''"
      using skill_path_relative [OF assms(2)] st by simp
    show ?thesis unfolding pa ps using ne by simp
  qed
  moreover have "skill_resource ?a \<noteq> skill_resource stem"
    using ne by (simp add: skill_resource_def)
  ultimately show ?thesis using l ne by (simp add: agent_name_of_def)
qed

theorem agent_name_not_stem_witness:
  "sublist ''.json'' ''a.jsonx'' \<and> CHR ''/'' \<notin> set ''a.jsonx'' \<and>
   agent_name_of (''a.jsonx'' @ ''.json'') = ''ax'' \<and>
   agent_name_of (''a.jsonx'' @ ''.json'') \<noteq> ''a.jsonx'' \<and>
   path_join (path_join SKILLS_DIR (agent_name_of (''a.jsonx'' @ ''.json''))) ''SKILL.md'' \<noteq>
     path_join (path_join SKILLS_DIR ''a.jsonx'') ''SKILL.md'' \<and>
   skill_resource (agent_name_of (''a.jsonx'' @ ''.json'')) \<noteq> skill_resource ''a.jsonx''"
proof -
  have "''a.jsonx'' = ''a'' @ ''.json'' @ ''x''" by simp
  then have a: "sublist ''.json'' ''a.jsonx''"
    unfolding sublist_def by blast
  have b: "CHR ''/'' \<notin> set ''a.jsonx''" by simp
  have c: "agent_name_of (''a.jsonx'' @ ''.json'') = ''ax''"
    by (simp add: agent_name_of_def)
  from agent_name_not_stem [OF a b] a b c show ?thesis by blast
qed

section \<open>The whole run\<close>

lemma graft_blank: "graft s (blank s) = s"
  by (simp add: graft_def blank_def)

lemma agents_graft: "agents (graft b d) = agents d"
  by (simp add: graft_def)

lemma map_add_twice: "m ++ n ++ n = m ++ n"
  by (rule ext) (simp add: map_add_def split: option.splits)

lemma graft_graft: "graft (graft b d) d = graft b d"
  by (simp add: graft_def Un_assoc map_add_twice)

lemma blank_cong: "agents s = agents t \<Longrightarrow> blank s = blank t"
  by (simp add: blank_def)

text \<open>
  A round reads only the directory \<^verbatim>\<open>agents\<close>; what is under \<^verbatim>\<open>skills\<close> before it is
  kept and added to.
\<close>

lemma process_file_graft:
  "process_file str_of f (graft b d) =
     (case process_file str_of f d of (e, d') \<Rightarrow> (e, graft b d'))"
proof (cases "suffix ''.json'' f")
  case False
  then show ?thesis by (simp add: process_file_skip)
next
  case True
  show ?thesis
  proof (cases "load_json (agents d) f")
    case (Inl e)
    then show ?thesis
      by (simp add: process_file_load_error [OF True] agents_graft)
  next
    case (Inr agent)
    then have "load_json (agents (graft b d)) f = Inr agent"
      by (simp add: agents_graft)
    from process_file_loaded [OF True this] process_file_loaded [OF True Inr]
    show ?thesis
      by (simp add: graft_def makedirs_def split: sum.splits)
  qed
qed

lemma process_files_graft:
  "process_files str_of fs (graft b d) =
     (case process_files str_of fs d of (e, d') \<Rightarrow> (e, graft b d'))"
proof (induction fs arbitrary: d)
  case Nil
  then show ?case by simp
next
  case (Cons f fs)
  then show ?case
    by (simp add: process_file_graft split: prod.splits option.splits)
qed

lemma process_files_blank:
  "process_files str_of fs s =
     (case process_files str_of fs (blank s) of (e, d) \<Rightarrow> (e, graft s d))"
  using process_files_graft [of str_of fs s "blank s"] by (simp add: graft_blank)

lemma process_file_agents_det:
  assumes "agents s = agents t"
  shows "fst (process_file str_of f s) = fst (process_file str_of f t) \<and>
         agents (snd (process_file str_of f s)) = agents (snd (process_file str_of f t))"
proof -
  have "process_file str_of f s =
      (case process_file str_of f (blank s) of (e, d) \<Rightarrow> (e, graft s d))"
    using process_file_graft [of str_of f s "blank s"] by (simp add: graft_blank)
  moreover have "process_file str_of f t =
      (case process_file str_of f (blank s) of (e, d) \<Rightarrow> (e, graft t d))"
    using process_file_graft [of str_of f t "blank t"]
    by (simp add: graft_blank blank_cong [OF assms])
  ultimately show ?thesis by (simp add: agents_graft split: prod.splits)
qed

lemma process_files_agents_det:
  assumes "agents s = agents t"
  shows "fst (process_files str_of fs s) = fst (process_files str_of fs t) \<and>
         agents (snd (process_files str_of fs s)) = agents (snd (process_files str_of fs t))"
  using process_files_blank [of str_of fs s] process_files_blank [of str_of fs t]
  by (simp add: blank_cong [OF assms] agents_graft split: prod.splits)

text \<open>A round that raises leaves the directory \<^verbatim>\<open>agents\<close> as it was.\<close>

lemma process_file_error_agents:
  assumes "fst (process_file str_of f s) = Some e"
  shows "agents (snd (process_file str_of f s)) = agents s"
proof (cases "suffix ''.json'' f")
  case False
  then show ?thesis by (simp add: process_file_skip)
next
  case True
  show ?thesis
  proof (cases "load_json (agents s) f")
    case (Inl e')
    then show ?thesis by (simp add: process_file_load_error [OF True])
  next
    case (Inr agent)
    with assms show ?thesis
      by (auto simp: process_file_loaded [OF True Inr] split: sum.splits)
  qed
qed

text \<open>A round writes no record but that of its own file, and adds no name.\<close>

lemma process_file_other:
  assumes "g \<noteq> f"
  shows "map_of (agents (snd (process_file str_of f s))) g = map_of (agents s) g"
proof (cases "suffix ''.json'' f")
  case False
  then show ?thesis by (simp add: process_file_skip)
next
  case True
  show ?thesis
  proof (cases "load_json (agents s) f")
    case (Inl e')
    then show ?thesis by (simp add: process_file_load_error [OF True])
  next
    case (Inr agent)
    with assms show ?thesis
      by (auto simp: process_file_loaded [OF True Inr] AList.update_conv' split: sum.splits)
  qed
qed

lemma process_file_not_json_kept:
  assumes "\<not> suffix ''.json'' g"
  shows "map_of (agents (snd (process_file str_of f s))) g = map_of (agents s) g"
proof (cases "g = f")
  case True
  with assms show ?thesis by (simp add: process_file_skip)
next
  case False
  then show ?thesis by (rule process_file_other)
qed

lemma process_file_names:
  "fst ` set (agents (snd (process_file str_of f s))) = fst ` set (agents s)"
proof (cases "suffix ''.json'' f")
  case False
  then show ?thesis by (simp add: process_file_skip)
next
  case True
  show ?thesis
  proof (cases "load_json (agents s) f")
    case (Inl e')
    then show ?thesis by (simp add: process_file_load_error [OF True])
  next
    case (Inr agent)
    then have "f \<in> fst ` set (agents s)"
      by (auto simp: load_json_Inr map_of_key_iff)
    then show ?thesis
      by (auto simp: process_file_loaded [OF True Inr] AList.dom_update split: sum.splits)
  qed
qed

lemma process_files_other:
  assumes "g \<notin> set fs"
  shows "map_of (agents (snd (process_files str_of fs s))) g = map_of (agents s) g"
  using assms
proof (induction fs arbitrary: s)
  case Nil
  then show ?case by simp
next
  case (Cons f fs)
  then have "g \<noteq> f" and "g \<notin> set fs" by auto
  with Cons.IH [of "snd (process_file str_of f s)"]
    process_file_other [of g f str_of s]
  show ?case
    by (cases "process_file str_of f s") (auto split: option.splits)
qed

lemma process_files_not_json_kept:
  assumes "\<not> suffix ''.json'' g"
  shows "map_of (agents (snd (process_files str_of fs s))) g = map_of (agents s) g"
proof (induction fs arbitrary: s)
  case Nil
  then show ?case by simp
next
  case (Cons f fs)
  with Cons.IH [of "snd (process_file str_of f s)"]
    process_file_not_json_kept [OF assms, of str_of f s]
  show ?case
    by (cases "process_file str_of f s") (auto split: option.splits)
qed

lemma process_files_names:
  "fst ` set (agents (snd (process_files str_of fs s))) = fst ` set (agents s)"
proof (induction fs arbitrary: s)
  case Nil
  then show ?case by simp
next
  case (Cons f fs)
  with Cons.IH [of "snd (process_file str_of f s)"] process_file_names [of str_of f s]
  show ?case
    by (cases "process_file str_of f s") (auto split: option.splits)
qed

lemma process_files_remove1:
  assumes "\<not> suffix ''.json'' g"
  shows "process_files str_of (remove1 g fs) s = process_files str_of fs s"
proof (induction fs arbitrary: s)
  case Nil
  then show ?case by simp
next
  case (Cons f fs)
  then show ?case
    using assms by (auto simp: process_file_skip split: prod.splits option.splits)
qed

lemma brief_prompt_settled:
  assumes "brief_prompt a p = Inr b"
  shows "brief_prompt a b = Inr b"
proof (cases "map_of BRIEF_PROMPTS a")
  case (Some x)
  with assms show ?thesis
    by (auto simp: brief_prompt_def slice200_def split: sum.splits)
next
  case None
  with assms show ?thesis
    by (auto simp: brief_prompt_def slice200_def split: sum.splits pyval.splits)
qed

text \<open>A rewritten record is rewritten to itself, and has what \<^verbatim>\<open>SKILL.md\<close> needs.\<close>

lemma updated_agent_settled:
  assumes "updated_agent a agent = Inr u"
  shows "updated_agent a u = Inr u \<and> (\<exists>c. skill_content_of str_of u = Inr c)"
proof -
  from assms obtain name description tools allowed prompt brief servers where
    b: "brief_prompt a prompt = Inr brief" and
    m: "build_mcp_servers a = Inr servers" and
    u: "u = PDict
          [(''name'', name),
           (''description'', description),
           (''tools'', tools),
           (''allowedTools'', allowed),
           (''prompt'', brief),
           (''includeMcpJson'', PBool False),
           (''mcpServers'', PDict servers),
           (''resources'', PList
              [PStr ''file://.kiro/steering/**/*.md'',
               PStr (skill_resource a)])]"
    by (auto simp: updated_agent_def split: sum.splits)
  have "updated_agent a u = Inr u"
    using m brief_prompt_settled [OF b]
    by (simp add: updated_agent_def u subscript_def dict_item_def)
  moreover have "\<exists>c. skill_content_of str_of u = Inr c"
    by (simp add: skill_content_of_def u subscript_def dict_item_def)
  ultimately show ?thesis by blast
qed

text \<open>
  A round that went through goes through again on the record it wrote, and writes the
  same record.
\<close>

lemma process_file_settled:
  assumes "fst (process_file str_of f s) = None"
    and "map_of (agents t) f = map_of (agents (snd (process_file str_of f s))) f"
  shows "fst (process_file str_of f t) = None \<and>
         agents (snd (process_file str_of f t)) = agents t"
proof (cases "suffix ''.json'' f")
  case False
  then show ?thesis by (simp add: process_file_skip)
next
  case True
  show ?thesis
  proof (cases "load_json (agents s) f")
    case (Inl e)
    with assms(1) show ?thesis by (simp add: process_file_load_error [OF True])
  next
    case (Inr agent)
    from assms(1) obtain c u where
      c: "skill_content_of str_of agent = Inr c" and
      u: "updated_agent (agent_name_of f) agent = Inr u"
      by (auto simp: process_file_loaded [OF True Inr] split: sum.splits)
    have "map_of (agents (snd (process_file str_of f s))) f = Some (Json u)"
      using c u by (simp add: process_file_loaded [OF True Inr] AList.update_conv')
    with assms(2) have t: "map_of (agents t) f = Some (Json u)" by simp
    then have l: "load_json (agents t) f = Inr u" by (simp add: load_json_Inr)
    from updated_agent_settled [OF u, of str_of] obtain c' where
      "updated_agent (agent_name_of f) u = Inr u" and "skill_content_of str_of u = Inr c'"
      by blast
    then show ?thesis
      using t by (simp add: process_file_loaded [OF True l] AList.update_triv)
  qed
qed

lemma process_files_settled:
  assumes "distinct fs"
  shows "fst (process_files str_of fs (snd (process_files str_of fs s))) =
           fst (process_files str_of fs s) \<and>
         agents (snd (process_files str_of fs (snd (process_files str_of fs s)))) =
           agents (snd (process_files str_of fs s))"
  using assms
proof (induction fs arbitrary: s)
  case Nil
  then show ?case by simp
next
  case (Cons f fs)
  obtain e1 s1 where r1: "process_file str_of f s = (e1, s1)"
    by (cases "process_file str_of f s")
  show ?case
  proof (cases e1)
    case (Some e)
    then have a: "process_files str_of (f # fs) s = (Some e, s1)"
      using r1 by simp
    have "agents s1 = agents s"
      using process_file_error_agents [of str_of f s e] r1 Some by simp
    from process_file_agents_det [OF this, of str_of f]
    have "fst (process_file str_of f s1) = Some e"
      and b: "agents (snd (process_file str_of f s1)) = agents s1"
      using r1 Some by simp_all
    then have "process_files str_of (f # fs) s1 = (Some e, snd (process_file str_of f s1))"
      by (cases "process_file str_of f s1") simp
    with a b show ?thesis by simp
  next
    case None
    let ?s2 = "snd (process_files str_of fs s1)"
    from Cons.prems have nf: "f \<notin> set fs" and d: "distinct fs" by simp_all
    have a: "process_files str_of (f # fs) s = process_files str_of fs s1"
      using r1 None by simp
    have "map_of (agents ?s2) f = map_of (agents s1) f"
      using nf by (rule process_files_other)
    then have "map_of (agents ?s2) f = map_of (agents (snd (process_file str_of f s))) f"
      using r1 by simp
    from process_file_settled [OF _ this] r1 None
    have f2: "fst (process_file str_of f ?s2) = None"
      and a2: "agents (snd (process_file str_of f ?s2)) = agents ?s2"
      by simp_all
    let ?s2' = "snd (process_file str_of f ?s2)"
    have b: "process_files str_of (f # fs) ?s2 = process_files str_of fs ?s2'"
      using f2 by (cases "process_file str_of f ?s2") simp
    from process_files_agents_det [OF a2, of str_of fs] Cons.IH [OF d, of s1]
    show ?thesis
      unfolding a b by simp
  qed
qed

lemma distinct_listdir: "distinct (listdir dir)"
  by (simp add: listdir_def)

lemma listdir_process_files:
  "listdir (agents (snd (process_files str_of fs s))) = listdir (agents s)"
  by (simp add: listdir_def process_files_names)

text \<open>
  C2. Run the pipeline three times, each run on what the run before left. The second
  and the third run leave the same state: every record and every \<^verbatim>\<open>SKILL.md\<close> is the
  same after the third run as after the second, and the third run ends as the second
  does (with the same exception, if any). A record is the value \<^verbatim>\<open>json.dump\<close> writes, so
  equal records are equal bytes.
\<close>

theorem process_agents_idempotent:
  "let s1 = snd (process_agents str_of s0);
       s2 = snd (process_agents str_of s1);
       s3 = snd (process_agents str_of s2)
   in s3 = s2 \<and> fst (process_agents str_of s2) = fst (process_agents str_of s1)"
proof -
  define fs where "fs = listdir (agents s0)"
  define s1 where "s1 = snd (process_files str_of fs s0)"
  define s2 where "s2 = snd (process_files str_of fs s1)"
  have l1: "listdir (agents s1) = fs"
    by (simp add: s1_def fs_def listdir_process_files)
  have d: "distinct fs"
    by (simp add: fs_def distinct_listdir)
  from process_files_settled [OF d, of str_of s0]
  have a: "agents s2 = agents s1"
    by (simp add: s2_def s1_def)
  then have l2: "listdir (agents s2) = fs"
    using l1 by simp
  obtain e D where r: "process_files str_of fs (blank s1) = (e, D)"
    by (cases "process_files str_of fs (blank s1)")
  have r1: "process_files str_of fs s1 = (e, graft s1 D)"
    using process_files_blank [of str_of fs s1] r by simp
  then have g: "s2 = graft s1 D"
    by (simp add: s2_def)
  have "process_files str_of fs s2 = (e, graft s2 D)"
    using process_files_blank [of str_of fs s2] r blank_cong [OF a] by simp
  then have r2: "process_files str_of fs s2 = (e, s2)"
    by (simp add: g graft_graft)
  have p0: "snd (process_agents str_of s0) = s1"
    by (simp add: process_agents_def s1_def fs_def)
  have p1: "process_agents str_of s1 = (e, s2)"
    using r1 g by (simp add: process_agents_def l1)
  have p2: "process_agents str_of s2 = (e, s2)"
    using r2 by (simp add: process_agents_def l2)
  show ?thesis
    by (simp add: Let_def p0 p1 p2)
qed

text \<open>
  C9. A name in \<^verbatim>\<open>agents\<close> that does not end in \<^verbatim>\<open>.json\<close> is skipped: its round of the
  loop returns the state as it is, whatever the file holds, so nothing is read, written
  or created for it; the run is the run over the other names; and after the run the
  file is what it was.
\<close>

theorem non_json_file_skipped:
  assumes "\<not> suffix ''.json'' filename"
  shows "process_file str_of filename s = (None, s) \<and>
         process_agents str_of s =
           process_files str_of (remove1 filename (listdir (agents s))) s \<and>
         map_of (agents (snd (process_agents str_of s))) filename =
           map_of (agents s) filename"
  using assms
  by (simp add: process_file_skip process_agents_def process_files_remove1
      process_files_not_json_kept)

theorem non_json_file_skipped_witness:
  "\<not> suffix ''.json'' ''README.md'' \<and>
   process_file (\<lambda>v. []) ''README.md'' example_fs = (None, example_fs) \<and>
   process_agents (\<lambda>v. []) example_fs =
     process_files (\<lambda>v. []) [''night-watchman.json''] example_fs \<and>
   map_of (agents (snd (process_agents (\<lambda>v. []) example_fs))) ''README.md'' = Some Not_Json"
proof -
  have a: "\<not> suffix ''.json'' ''README.md''"
    by (auto simp: suffix_def Cons_eq_append_conv)
  have l: "listdir (agents example_fs) = [''README.md'', ''night-watchman.json'']"
    by (simp add: listdir_def example_fs_def insort_key.simps)
  have r: "remove1 ''README.md'' (listdir (agents example_fs)) = [''night-watchman.json'']"
    by (simp add: l)
  have m: "map_of (agents example_fs) ''README.md'' = Some Not_Json"
    by (simp add: example_fs_def)
  from non_json_file_skipped [OF a, of "\<lambda>v. []" example_fs]
  have "process_file (\<lambda>v. []) ''README.md'' example_fs = (None, example_fs) \<and>
   process_agents (\<lambda>v. []) example_fs =
     process_files (\<lambda>v. []) [''night-watchman.json''] example_fs \<and>
   map_of (agents (snd (process_agents (\<lambda>v. []) example_fs))) ''README.md'' = Some Not_Json"
    unfolding r m .
  with a show ?thesis by blast
qed

section \<open>Sharing between the results of the capability resolver\<close>

text \<open>
  The dict built in the store stands for the value that \<open>build_mcp_servers\<close> gives: on
  an agent that \<^verbatim>\<open>AGENT_MCPS\<close> does not list and on two that between them take every
  extra server.
\<close>

lemma h_build_value_agrees:
  "list_all (\<lambda>a. map_option PDict (case build_mcp_servers a of Inl e \<Rightarrow> None | Inr m \<Rightarrow> Some m)
                   = h_build_value a \<and> h_build_value a \<noteq> None)
     [''night-watchman'', ''data-scientist'', ''typescript-test-engineer'']"
  by code_simp

text \<open>
  C5 (does not hold of the code). \<^verbatim>\<open>build_mcp_servers\<close> is called for \<^verbatim>\<open>data-scientist\<close> and
  then for \<^verbatim>\<open>python-backend\<close>. The two results are different dicts, their \<^verbatim>\<open>dynamodb\<close>
  descriptors are different dicts, and so are the \<^verbatim>\<open>env\<close> dicts in them, none of them the
  one of \<^verbatim>\<open>MCP_SERVERS\<close>. But the \<^verbatim>\<open>args\<close> list of the two descriptors is one object, the
  list of \<^verbatim>\<open>MCP_SERVERS\<close> itself: \<^verbatim>\<open>copy()\<close> copies the dict, not the list in it. Appending
  to \<^verbatim>\<open>args\<close> through the first result changes what the second result and
  \<^verbatim>\<open>MCP_SERVERS\<close> hold.
\<close>

theorem build_mcp_servers_shares_args:
  "(case two_builds ''data-scientist'' ''python-backend'' of
      Inl e \<Rightarrow> False
    | Inr (table, servers_a, servers_b, h) \<Rightarrow>
        servers_a \<noteq> servers_b \<and>
        h_path h servers_a [''dynamodb''] \<noteq> h_path h servers_b [''dynamodb''] \<and>
        h_path h servers_a [''dynamodb''] \<noteq> h_path h table [''dynamodb''] \<and>
        h_path h servers_a [''dynamodb'', ''env''] \<noteq> h_path h servers_b [''dynamodb'', ''env''] \<and>
        h_path h servers_a [''dynamodb'', ''env''] \<noteq> h_path h table [''dynamodb'', ''env''] \<and>
        h_path h servers_a [''dynamodb'', ''args''] = h_path h servers_b [''dynamodb'', ''args''] \<and>
        h_path h servers_a [''dynamodb'', ''args''] = h_path h table [''dynamodb'', ''args''] \<and>
        (case h_path h servers_a [''dynamodb'', ''args''] of
           Inl e \<Rightarrow> False
         | Inr args \<Rightarrow>
            (case h_append h args (HStr ''--verbose'') of
               Inl e \<Rightarrow> False
             | Inr h' \<Rightarrow>
                 h_read 3 h servers_b \<noteq> None \<and>
                 h_read 3 h' servers_b \<noteq> h_read 3 h servers_b \<and>
                 h_read 3 h' table \<noteq> h_read 3 h table)))"
  by code_simp

end
